theory Spec2Isabelle
  imports Complex_Main
begin

section \<open>Python strings\<close>

text \<open>
  A Python \<open>str\<close> is modelled as a \<open>string\<close>; each \<open>char\<close> stands for one code point
  below 256. \<open>isspace\<close> is \<open>str.isspace\<close> on these code points: the characters that
  \<open>str.strip()\<close> removes and at which \<open>str.split()\<close> cuts.
\<close>

definition isspace :: "char \<Rightarrow> bool" where
  "isspace c = (of_char c \<in> {9, 10, 11, 12, 13, 28, 29, 30, 31, 32, 133, 160 :: nat})"

definition lstrip :: "string \<Rightarrow> string" where
  "lstrip s = dropWhile isspace s"

definition rstrip :: "string \<Rightarrow> string" where
  "rstrip s = rev (dropWhile isspace (rev s))"

definition strip :: "string \<Rightarrow> string" where
  "strip s = rstrip (lstrip s)"

text \<open>\<open>sep.join(xs)\<close>.\<close>

fun join :: "string \<Rightarrow> string list \<Rightarrow> string" where
  "join sep [] = []"
| "join sep [x] = x"
| "join sep (x # y # ys) = x @ sep @ join sep (y # ys)"

text \<open>
  \<open>s.split()\<close> without a separator: the maximal runs of non-whitespace characters of
  \<open>s\<close>, in order. \<open>split_acc w s\<close> carries the word \<open>w\<close> begun so far.
\<close>

fun split_acc :: "string \<Rightarrow> string \<Rightarrow> string list" where
  "split_acc w [] = (if w = [] then [] else [w])"
| "split_acc w (c # cs) =
     (if isspace c then (if w = [] then split_acc [] cs else w # split_acc [] cs)
      else split_acc (w @ [c]) cs)"

definition split_ws :: "string \<Rightarrow> string list" where
  "split_ws s = split_acc [] s"

text \<open>
  \<open>s.split(c)\<close> with a one-character separator: every occurrence of \<open>c\<close> cuts, empty
  fields are kept, and the empty string gives one empty field.
\<close>

fun split_on :: "char \<Rightarrow> string \<Rightarrow> string list" where
  "split_on c [] = [[]]"
| "split_on c (x # xs) =
     (if x = c then [] # split_on c xs
      else (case split_on c xs of
              [] \<Rightarrow> [[x]]
            | w # ws \<Rightarrow> (x # w) # ws))"

text \<open>\<open>sub in s\<close> on two strings: \<open>sub\<close> occurs in \<open>s\<close> as a contiguous run.\<close>

fun startswith :: "string \<Rightarrow> string \<Rightarrow> bool" where
  "startswith s [] = True"
| "startswith [] (p # ps) = False"
| "startswith (c # cs) (p # ps) = (c = p \<and> startswith cs ps)"

fun str_contains :: "string \<Rightarrow> string \<Rightarrow> bool" where
  "str_contains [] sub = (sub = [])"
| "str_contains (c # cs) sub = (startswith (c # cs) sub \<or> str_contains cs sub)"

section \<open>Segments, speaker maps and conversation turns\<close>

text \<open>
  A segment is the dict the speech models hand back: keys \<open>start\<close>, \<open>end\<close>, \<open>text\<close> and,
  when diarization found a speaker for it, \<open>speaker\<close>. The times are never read by the
  functions below.
\<close>

record segment =
  seg_start :: real
  seg_end :: real
  seg_text :: string
  seg_speaker :: "string option"

type_synonym speaker_mapping = "string \<rightharpoonup> string"

record turn =
  turn_speaker :: string
  turn_text :: string

text \<open>
  \<open>segment.get('speaker', 'Unknown')\<close> followed by
  \<open>speaker_mapping.get(speaker, speaker)\<close>.
\<close>

definition get_speaker :: "segment \<Rightarrow> string" where
  "get_speaker segment = (case seg_speaker segment of None \<Rightarrow> ''Unknown'' | Some s \<Rightarrow> s)"

definition mapped_speaker :: "speaker_mapping \<Rightarrow> segment \<Rightarrow> string" where
  "mapped_speaker speaker_mapping segment =
     (let speaker = get_speaker segment
      in case speaker_mapping speaker of None \<Rightarrow> speaker | Some name \<Rightarrow> name)"

subsection \<open>\<open>save_conversation\<close> (v7process_audio.py)\<close>

text \<open>
  The loop state is \<open>(conversation, current_speaker, current_text)\<close>;
  \<open>current_speaker\<close> starts as Python's \<open>None\<close>.
\<close>

type_synonym conv_state = "turn list \<times> string option \<times> string"

definition conv_step :: "speaker_mapping \<Rightarrow> conv_state \<Rightarrow> segment \<Rightarrow> conv_state" where
  "conv_step speaker_mapping st segment =
     (case st of (conversation, current_speaker, current_text) \<Rightarrow>
        (let speaker = mapped_speaker speaker_mapping segment;
             text = strip (seg_text segment)
         in if Some speaker \<noteq> current_speaker then
              (case current_speaker of
                 None \<Rightarrow> (conversation, Some speaker, text @ '' '')
               | Some cs \<Rightarrow>
                   (conversation @ [\<lparr>turn_speaker = cs, turn_text = strip current_text\<rparr>],
                    Some speaker, text @ '' ''))
            else (conversation, current_speaker, current_text @ text @ '' '')))"

fun conv_loop :: "speaker_mapping \<Rightarrow> segment list \<Rightarrow> conv_state \<Rightarrow> conv_state" where
  "conv_loop speaker_mapping [] st = st"
| "conv_loop speaker_mapping (segment # segments) st =
     conv_loop speaker_mapping segments (conv_step speaker_mapping st segment)"

definition conv_finish :: "conv_state \<Rightarrow> turn list" where
  "conv_finish st =
     (case st of (conversation, current_speaker, current_text) \<Rightarrow>
        (case current_speaker of
           None \<Rightarrow> conversation
         | Some cs \<Rightarrow>
             if current_text \<noteq> [] then
               conversation @ [\<lparr>turn_speaker = cs, turn_text = strip current_text\<rparr>]
             else conversation))"

definition save_conversation :: "speaker_mapping \<Rightarrow> segment list \<Rightarrow> turn list" where
  "save_conversation speaker_mapping segments =
     conv_finish (conv_loop speaker_mapping segments ([], None, []))"

subsection \<open>\<open>save_conversation\<close> (v4process_audio.py, directory_transcribe.py)\<close>

text \<open>The earlier versions coalesce on the raw label: there is no speaker mapping.\<close>

definition conv_step_v4 :: "conv_state \<Rightarrow> segment \<Rightarrow> conv_state" where
  "conv_step_v4 st segment =
     (case st of (conversation, current_speaker, current_text) \<Rightarrow>
        (let speaker = get_speaker segment;
             text = strip (seg_text segment)
         in if Some speaker \<noteq> current_speaker then
              (case current_speaker of
                 None \<Rightarrow> (conversation, Some speaker, text @ '' '')
               | Some cs \<Rightarrow>
                   (conversation @ [\<lparr>turn_speaker = cs, turn_text = strip current_text\<rparr>],
                    Some speaker, text @ '' ''))
            else (conversation, current_speaker, current_text @ text @ '' '')))"

fun conv_loop_v4 :: "segment list \<Rightarrow> conv_state \<Rightarrow> conv_state" where
  "conv_loop_v4 [] st = st"
| "conv_loop_v4 (segment # segments) st = conv_loop_v4 segments (conv_step_v4 st segment)"

definition save_conversation_v4 :: "segment list \<Rightarrow> turn list" where
  "save_conversation_v4 segments = conv_finish (conv_loop_v4 segments ([], None, []))"

subsection \<open>\<open>save_text_format\<close> (v7process_audio.py)\<close>

text \<open>
  The file is opened for writing (so it starts empty) and every \<open>f.write\<close> appends.
  The loop runs over \<open>result["segments"]\<close>.
\<close>

definition text_line :: "speaker_mapping \<Rightarrow> segment \<Rightarrow> string" where
  "text_line speaker_mapping segment =
     (let speaker = mapped_speaker speaker_mapping segment;
          text = strip (seg_text segment)
      in speaker @ '': '' @ text @ [CHR 0x0A])"

fun write_segments :: "speaker_mapping \<Rightarrow> segment list \<Rightarrow> string \<Rightarrow> string" where
  "write_segments speaker_mapping [] f = f"
| "write_segments speaker_mapping (segment # segments) f =
     write_segments speaker_mapping segments (f @ text_line speaker_mapping segment)"

definition save_text_format :: "speaker_mapping \<Rightarrow> segment list \<Rightarrow> string" where
  "save_text_format speaker_mapping segments = write_segments speaker_mapping segments []"

text \<open>
  The specification's wording of the text artifact, for comparison: one line per
  conversation turn, \<open>"<speaker>: <text>\n"\<close>, in turn order.
\<close>

definition spec_turn_lines :: "turn list \<Rightarrow> string" where
  "spec_turn_lines turns =
     concat (map (\<lambda>t. turn_speaker t @ '': '' @ turn_text t @ [CHR 0x0A]) turns)"

section \<open>Exceptions and JSON values\<close>

text \<open>
  The exceptions that the modelled code can meet. All but \<open>KeyboardInterrupt\<close> are
  subclasses of \<open>Exception\<close>, which is what every handler in the source catches.
  \<open>ModelError\<close> stands for whatever \<open>Exception\<close> a call into the speech models or the
  file system raises during the pipeline.
\<close>

datatype exn =
  OSError | JSONDecodeError | TypeError | KeyError | ZeroDivisionError | ModelError
  | KeyboardInterrupt

definition is_Exception :: "exn \<Rightarrow> bool" where
  "is_Exception e = (e \<noteq> KeyboardInterrupt)"

definition bind_exn :: "exn + 'a \<Rightarrow> ('a \<Rightarrow> exn + 'b) \<Rightarrow> exn + 'b" where
  "bind_exn x f = (case x of Inl e \<Rightarrow> Inl e | Inr v \<Rightarrow> f v)"

text \<open>
  What \<open>json.load\<close> returns. A dict is the list of its items (the keys of a Python dict
  are distinct).
\<close>

datatype json =
  JNull | JBool bool | JInt int | JFloat real | JStr string
  | JList "json list" | JObj "(string \<times> json) list"

text \<open>\<open>key in value\<close> for a string \<open>key\<close>.\<close>

definition py_contains :: "string \<Rightarrow> json \<Rightarrow> exn + bool" where
  "py_contains key v =
     (case v of
        JObj items \<Rightarrow> Inr (key \<in> fst ` set items)
      | JList xs \<Rightarrow> Inr (JStr key \<in> set xs)
      | JStr s \<Rightarrow> Inr (str_contains s key)
      | _ \<Rightarrow> Inl TypeError)"

text \<open>\<open>value[key]\<close> for a string \<open>key\<close>: only a dict can be indexed by a string.\<close>

definition py_getitem :: "json \<Rightarrow> string \<Rightarrow> exn + json" where
  "py_getitem v key =
     (case v of
        JObj items \<Rightarrow> (case map_of items key of None \<Rightarrow> Inl KeyError | Some x \<Rightarrow> Inr x)
      | _ \<Rightarrow> Inl TypeError)"

text \<open>Truth value of a loaded JSON value.\<close>

definition py_truthy :: "json \<Rightarrow> bool" where
  "py_truthy v =
     (case v of
        JNull \<Rightarrow> False | JBool b \<Rightarrow> b | JInt n \<Rightarrow> n \<noteq> 0 | JFloat x \<Rightarrow> x \<noteq> 0
      | JStr s \<Rightarrow> s \<noteq> [] | JList xs \<Rightarrow> xs \<noteq> [] | JObj items \<Rightarrow> items \<noteq> [])"

text \<open>\<open>for x in value\<close>: the elements of a list, the keys of a dict, the characters of a
  string; anything else is not iterable.\<close>

definition py_iter :: "json \<Rightarrow> exn + json list" where
  "py_iter v =
     (case v of
        JList xs \<Rightarrow> Inr xs
      | JObj items \<Rightarrow> Inr (map (\<lambda>(k, x). JStr k) items)
      | JStr s \<Rightarrow> Inr (map (\<lambda>c. JStr [c]) s)
      | _ \<Rightarrow> Inl TypeError)"

section \<open>Paths and the file system\<close>

text \<open>
  An absolute path is the list of its components. \<open>path_stem\<close> is \<open>pathlib\<close>'s: the name
  without its last suffix, where a leading or a trailing dot starts no suffix.
\<close>

type_synonym path = "string list"

definition path_parent :: "path \<Rightarrow> path" where
  "path_parent p = butlast p"

definition path_name :: "path \<Rightarrow> string" where
  "path_name p = (if p = [] then [] else last p)"

definition rfind :: "char \<Rightarrow> string \<Rightarrow> int" where
  "rfind c s =
     (if c \<in> set s then int (length s) - 1 - int (length (takeWhile (\<lambda>x. x \<noteq> c) (rev s)))
      else - 1)"

definition path_stem :: "path \<Rightarrow> string" where
  "path_stem p =
     (let name = path_name p; i = rfind CHR ''.'' name
      in if 0 < i \<and> i < int (length name) - 1 then take (nat i) name else name)"

definition joinpath :: "path \<Rightarrow> string \<Rightarrow> path" where
  "joinpath p c = (if c = [] then p else p @ [c])"

definition path_str :: "path \<Rightarrow> string" where
  "path_str p = (if p = [] then ''/'' else concat (map (\<lambda>c. ''/'' @ c) p))"

definition workspace_dir :: path where
  "workspace_dir = [''workspace'', ''audio'']"

definition output_base_dir :: path where
  "output_base_dir = joinpath workspace_dir ''audio-only''"

text \<open>
  What the code finds at a location: \<open>Missing\<close> when \<open>location.exists()\<close> is false,
  \<open>IOFail\<close> when opening or reading raises \<open>OSError\<close>, \<open>BadJSON\<close> when \<open>json.load\<close>
  raises \<open>JSONDecodeError\<close>, and \<open>Content v\<close> when \<open>json.load\<close> returns \<open>v\<close>.
\<close>

datatype file_state = Missing | IOFail | BadJSON | Content json

type_synonym filesystem = "path \<Rightarrow> file_state"

section \<open>\<open>load_metadata\<close> (v7process_audio.py)\<close>

definition metadata_locations :: "path \<Rightarrow> (path \<times> string) list" where
  "metadata_locations wav_file =
     (let stem = path_stem wav_file
      in [(joinpath (path_parent wav_file) (stem @ ''_metadata.json''), ''parent directory''),
          (joinpath workspace_dir (stem @ ''_metadata.json''), ''workspace root''),
          (joinpath (joinpath output_base_dir stem) (stem @ ''_metadata.json''),
           ''output directory'')])"

text \<open>
  The \<open>for\<close> loop inside the \<open>try\<close>. The second component \<open>seen\<close> is the log: the description of
  every location the loop has examined, in order (the source logs each one before it
  looks at it). \<open>Inl e\<close> is an exception leaving the loop, \<open>Inr (Some (metadata, location))\<close>
  the \<open>return\<close> inside the loop, \<open>Inr None\<close> the loop running to its end. The logging
  call that reads \<open>metadata['speaker_count']\<close> comes before the \<open>return\<close>.
\<close>

fun search_locations ::
  "filesystem \<Rightarrow> (path \<times> string) list \<Rightarrow> string list \<Rightarrow> (exn + (json \<times> path) option) \<times> string list"
where
  "search_locations fs [] seen = (Inr None, seen)"
| "search_locations fs ((location, desc) # rest) seen =
     (case fs location of
        Missing \<Rightarrow> search_locations fs rest (seen @ [desc])
      | IOFail \<Rightarrow> (Inl OSError, seen @ [desc])
      | BadJSON \<Rightarrow> (Inl JSONDecodeError, seen @ [desc])
      | Content metadata \<Rightarrow>
          (case py_contains ''speaker_count'' metadata of
             Inl e \<Rightarrow> (Inl e, seen @ [desc])
           | Inr False \<Rightarrow> search_locations fs rest (seen @ [desc])
           | Inr True \<Rightarrow>
               (case py_getitem metadata ''speaker_count'' of
                  Inl e \<Rightarrow> (Inl e, seen @ [desc])
                | Inr n \<Rightarrow> (Inr (Some (metadata, location)), seen @ [desc]))))"

text \<open>
  The whole function: the \<open>except Exception\<close> clause around the loop turns any exception
  into \<open>(None, "")\<close>; every exception that \<open>search_locations\<close> can raise is an
  \<open>Exception\<close>. The result is the returned pair together with the log.
\<close>

definition load_metadata :: "filesystem \<Rightarrow> path \<Rightarrow> (json option \<times> string) \<times> string list" where
  "load_metadata fs wav_file =
     (case search_locations fs (metadata_locations wav_file) [] of
        (Inr (Some (metadata, location)), seen) \<Rightarrow> ((Some metadata, path_str location), seen)
      | (Inr None, seen) \<Rightarrow> ((None, []), seen)
      | (Inl e, seen) \<Rightarrow> ((None, []), seen))"

text \<open>
  The specification's wording of metadata resolution, for comparison: the first candidate
  holding a record with \<open>speaker_count\<close> wins; a candidate that is missing, unreadable,
  unparseable or without \<open>speaker_count\<close> is a miss and the search goes on.
\<close>

definition valid_record :: "file_state \<Rightarrow> bool" where
  "valid_record st =
     (case st of Content (JObj items) \<Rightarrow> ''speaker_count'' \<in> fst ` set items | _ \<Rightarrow> False)"

fun spec_resolve :: "filesystem \<Rightarrow> (path \<times> string) list \<Rightarrow> (json option \<times> string)" where
  "spec_resolve fs [] = (None, [])"
| "spec_resolve fs ((location, desc) # rest) =
     (case fs location of
        Content metadata \<Rightarrow>
          if valid_record (Content metadata) then (Some metadata, path_str location)
          else spec_resolve fs rest
      | _ \<Rightarrow> spec_resolve fs rest)"

text \<open>
  A candidate at which the loop of the source goes on to the next one: the file does not
  exist, or it loads and \<open>'speaker_count' in metadata\<close> is false.
\<close>

definition is_miss :: "file_state \<Rightarrow> bool" where
  "is_miss st =
     (case st of
        Missing \<Rightarrow> True
      | Content metadata \<Rightarrow> py_contains ''speaker_count'' metadata = Inr False
      | _ \<Rightarrow> False)"

section \<open>\<open>process_audio_file\<close> (v7process_audio.py)\<close>

subsection \<open>Speaker count (the lines before the \<open>try\<close>)\<close>

text \<open>
  The loop printing the attendees reads \<open>attendee['name']\<close> of every element; it is not
  inside any \<open>try\<close> of \<open>process_audio_file\<close>.
\<close>

fun print_attendees :: "json list \<Rightarrow> exn + unit" where
  "print_attendees [] = Inr ()"
| "print_attendees (attendee # rest) =
     bind_exn (py_getitem attendee ''name'') (\<lambda>name. print_attendees rest)"

text \<open>
  \<open>if metadata and 'speaker_count' in metadata: ... else: speaker_count = 2\<close>.
  The value of \<open>speaker_count\<close> is whatever JSON value the record holds.
\<close>

definition choose_speaker_count :: "json option \<Rightarrow> exn + json" where
  "choose_speaker_count metadata =
     (case metadata of
        None \<Rightarrow> Inr (JInt 2)
      | Some md \<Rightarrow>
          if \<not> py_truthy md then Inr (JInt 2)
          else
            bind_exn (py_contains ''speaker_count'' md) (\<lambda>has_count.
              if has_count then
                bind_exn (py_getitem md ''speaker_count'') (\<lambda>speaker_count.
                bind_exn (py_contains ''attendees'' md) (\<lambda>has_attendees.
                  if has_attendees then
                    bind_exn (py_getitem md ''attendees'') (\<lambda>attendees.
                    bind_exn (py_iter attendees) (\<lambda>xs.
                    bind_exn (print_attendees xs) (\<lambda>u. Inr speaker_count)))
                  else Inr speaker_count))
              else Inr (JInt 2)))"

definition speaker_count_for :: "filesystem \<Rightarrow> path \<Rightarrow> exn + json" where
  "speaker_count_for fs audio_path =
     (case load_metadata fs audio_path of
        ((metadata, metadata_location), seen) \<Rightarrow> choose_speaker_count metadata)"

subsection \<open>The pipeline (the body of the \<open>try\<close>)\<close>

text \<open>
  The three heavyweight models are the values of the local variables \<open>model\<close>,
  \<open>model_a\<close> and \<open>diarize_model\<close>. A model is resident from the assignment that binds it
  until \<open>del\<close> unbinds it. Every call out of the function is recorded together with the
  set of models resident while it runs; each call may raise.
\<close>

datatype heavy = AsrModel | AlignModel | DiarizeModel

datatype call =
  LoadAudio | LoadModel | Transcribe | LoadAlignModel | Align | GcCollect | EmptyCache
  | DiarizationPipeline | Diarize json json | AssignWordSpeakers | SaveResults path

type_synonym gateway = "call \<Rightarrow> exn option"

record pstate =
  resident :: "heavy set"
  calls :: "(call \<times> heavy set) list"
  raised :: "exn option"

definition invoke :: "gateway \<Rightarrow> call \<Rightarrow> pstate \<Rightarrow> pstate" where
  "invoke gw c s = s\<lparr>calls := calls s @ [(c, resident s)], raised := gw c\<rparr>"

definition assign :: "heavy \<Rightarrow> pstate \<Rightarrow> pstate" where
  "assign h s = s\<lparr>resident := insert h (resident s)\<rparr>"

definition del :: "heavy \<Rightarrow> pstate \<Rightarrow> pstate" where
  "del h s = s\<lparr>resident := resident s - {h}\<rparr>"

text \<open>Statements run in order; a raised exception skips the rest.\<close>

fun run_steps :: "(pstate \<Rightarrow> pstate) list \<Rightarrow> pstate \<Rightarrow> pstate" where
  "run_steps [] s = s"
| "run_steps (f # fs) s =
     (let s' = f s in if raised s' = None then run_steps fs s' else s')"

definition try_body :: "gateway \<Rightarrow> json \<Rightarrow> path \<Rightarrow> pstate" where
  "try_body gw speaker_count output_dir =
     run_steps
       [invoke gw LoadAudio,
        invoke gw LoadModel, assign AsrModel,
        invoke gw Transcribe,
        invoke gw LoadAlignModel, assign AlignModel,
        invoke gw Align,
        del AsrModel,
        del AlignModel,
        invoke gw GcCollect,
        invoke gw EmptyCache,
        invoke gw DiarizationPipeline, assign DiarizeModel,
        invoke gw (Diarize speaker_count speaker_count),
        invoke gw AssignWordSpeakers,
        invoke gw (SaveResults output_dir)]
       \<lparr>resident = {}, calls = [], raised = None\<rparr>"

text \<open>
  The function: \<open>Inr True\<close> and \<open>Inr False\<close> are its two return values, \<open>Inl e\<close> is an
  exception leaving it. The second component is the record of the calls made.
\<close>

definition process_audio_file ::
  "filesystem \<Rightarrow> gateway \<Rightarrow> path \<Rightarrow> path \<Rightarrow> (exn + bool) \<times> (call \<times> heavy set) list"
where
  "process_audio_file fs gw audio_path output_dir =
     (case speaker_count_for fs audio_path of
        Inl e \<Rightarrow> (Inl e, [])
      | Inr speaker_count \<Rightarrow>
          (let s = try_body gw speaker_count output_dir
           in case raised s of
                None \<Rightarrow> (Inr True, calls s)
              | Some e \<Rightarrow> if is_Exception e then (Inr False, calls s) else (Inl e, calls s)))"

text \<open>
  The specification's resource discipline, for comparison: at most one heavyweight model
  is resident during any call.
\<close>

definition one_model_at_a_time :: "(call \<times> heavy set) list \<Rightarrow> bool" where
  "one_model_at_a_time tr = list_all (\<lambda>(c, r). card r \<le> 1) tr"

section \<open>\<open>process_all_files\<close> (v7process_audio.py)\<close>

subsection \<open>Output directory name\<close>

text \<open>
  \<open>filename_parts[2:-2]\<close>, \<open>filename_parts[-2]\<close> and the three slices of \<open>date_str\<close>; the
  branch is taken only when there are at least six parts, so every index is in range.
  \<open>parse_stem\<close> gives \<open>(event_name, formatted_date)\<close> in that branch.
\<close>

definition parse_stem :: "string \<Rightarrow> (string \<times> string) option" where
  "parse_stem stem =
     (let filename_parts = split_on CHR ''_'' stem
      in if length filename_parts \<ge> 6 then
           (let event_parts = drop 2 (take (length filename_parts - 2) filename_parts);
                event_name = join ''_'' event_parts;
                date_str = filename_parts ! (length filename_parts - 2);
                formatted_date =
                  take 4 date_str @ ''-'' @ take 2 (drop 4 date_str) @ ''-'' @ drop 6 date_str
            in Some (event_name, formatted_date))
         else None)"

definition dir_name :: "string \<Rightarrow> string" where
  "dir_name stem =
     (case parse_stem stem of
        Some (event_name, formatted_date) \<Rightarrow> event_name @ ''_'' @ formatted_date
      | None \<Rightarrow> stem)"

subsection \<open>The batch loop\<close>

text \<open>
  What the \<open>i\<close>-th recording of the batch meets: the file system at that time, whether
  creating its output directory raises, and what the calls of its pipeline do.
\<close>

record recording_env =
  env_fs :: filesystem
  env_mkdir :: "exn option"
  env_gateway :: gateway

record counters =
  successful :: nat
  failed :: nat
  attempted :: "path list"

text \<open>The body of the \<open>try\<close> inside the loop.\<close>

definition try_recording :: "recording_env \<Rightarrow> path \<Rightarrow> exn + bool" where
  "try_recording env wav_path =
     (let output_dir = joinpath output_base_dir (dir_name (path_stem wav_path))
      in case env_mkdir env of
           Some e \<Rightarrow> Inl e
         | None \<Rightarrow> fst (process_audio_file (env_fs env) (env_gateway env) wav_path output_dir))"

text \<open>
  \<open>for i, wav_path in enumerate(wav_files, 1)\<close>. \<open>attempted\<close> lists the recordings whose
  iteration has started. \<open>except Exception\<close> counts a failure and goes on; any other
  exception leaves the loop.
\<close>

fun files_loop :: "(nat \<Rightarrow> recording_env) \<Rightarrow> nat \<Rightarrow> path list \<Rightarrow> counters \<Rightarrow> exn + counters" where
  "files_loop world i [] st = Inr st"
| "files_loop world i (wav_path # rest) st =
     (let st' = st\<lparr>attempted := attempted st @ [wav_path]\<rparr>
      in case try_recording (world i) wav_path of
           Inr True \<Rightarrow> files_loop world (i + 1) rest (st'\<lparr>successful := successful st' + 1\<rparr>)
         | Inr False \<Rightarrow> files_loop world (i + 1) rest (st'\<lparr>failed := failed st' + 1\<rparr>)
         | Inl e \<Rightarrow>
             if is_Exception e then
               files_loop world (i + 1) rest (st'\<lparr>failed := failed st' + 1\<rparr>)
             else Inl e)"

text \<open>
  The summary divides by \<open>len(wav_files)\<close>. The function returns nothing; the model
  returns the counters (\<open>None\<close> for the early return on an empty batch).
\<close>

definition success_rate :: "nat \<Rightarrow> nat \<Rightarrow> exn + real" where
  "success_rate n len =
     (if len = 0 then Inl ZeroDivisionError else Inr (real n / real len * 100))"

definition process_all_files :: "(nat \<Rightarrow> recording_env) \<Rightarrow> path list \<Rightarrow> exn + counters option" where
  "process_all_files world wav_files =
     (if wav_files = [] then Inr None
      else
        bind_exn (files_loop world 1 wav_files \<lparr>successful = 0, failed = 0, attempted = []\<rparr>)
          (\<lambda>st. bind_exn (success_rate (successful st) (length wav_files))
             (\<lambda>rate. Inr (Some st))))"

text \<open>
  Whether the \<open>i\<close>-th recording is counted as successful: the body of the \<open>try\<close> returns
  \<open>True\<close>.
\<close>

definition succeeded :: "(nat \<Rightarrow> recording_env) \<Rightarrow> nat \<times> path \<Rightarrow> bool" where
  "succeeded world = (\<lambda>(i, wav_path). try_recording (world i) wav_path = Inr True)"

section \<open>Concrete scenarios\<close>

text \<open>A recording outside the workspace root, so that its three candidates differ.\<close>

definition example_wav :: path where
  "example_wav = [''data'', ''rec'', ''a.wav'']"

text \<open>No sidecar anywhere.\<close>

definition empty_fs :: filesystem where
  "empty_fs = (\<lambda>p. Missing)"

text \<open>
  The sidecar next to the recording exists but is not JSON; the one at the workspace root
  is a record with \<open>speaker_count\<close>.
\<close>

definition broken_parent_fs :: filesystem where
  "broken_parent_fs = empty_fs
     ([''data'', ''rec'', ''a_metadata.json''] := BadJSON,
      [''workspace'', ''audio'', ''a_metadata.json''] :=
        Content (JObj [(''speaker_count'', JInt 3)]))"

text \<open>Records with \<open>speaker_count\<close> both next to the recording and at the workspace root.\<close>

definition both_valid_fs :: filesystem where
  "both_valid_fs = empty_fs
     ([''data'', ''rec'', ''a_metadata.json''] :=
        Content (JObj [(''speaker_count'', JInt 3)]),
      [''workspace'', ''audio'', ''a_metadata.json''] :=
        Content (JObj [(''speaker_count'', JInt 5)]))"

text \<open>Speech models and file system that never raise.\<close>

definition quiet_gateway :: gateway where
  "quiet_gateway = (\<lambda>c. None)"

text \<open>
  A batch of three recordings in the workspace root, without sidecars; alignment fails
  for the second one.
\<close>

definition three_wavs :: "path list" where
  "three_wavs =
     [[''workspace'', ''audio'', ''a.wav''],
      [''workspace'', ''audio'', ''b.wav''],
      [''workspace'', ''audio'', ''c.wav'']]"

definition second_fails :: "nat \<Rightarrow> recording_env" where
  "second_fails i =
     \<lparr>env_fs = empty_fs, env_mkdir = None,
      env_gateway = (if i = 2 then quiet_gateway(Align := Some ModelError) else quiet_gateway)\<rparr>"

text \<open>The three segments and the speaker map of the specification's scenario.\<close>

definition hi_there_bye :: "segment list" where
  "hi_there_bye =
     [\<lparr>seg_start = 0.0, seg_end = 1.0, seg_text = ''Hi'', seg_speaker = Some ''S1''\<rparr>,
      \<lparr>seg_start = 1.0, seg_end = 2.0, seg_text = ''there'', seg_speaker = Some ''S1''\<rparr>,
      \<lparr>seg_start = 2.0, seg_end = 3.0, seg_text = ''Bye'', seg_speaker = Some ''S2''\<rparr>]"

definition alice_bob :: speaker_mapping where
  "alice_bob = [''S1'' \<mapsto> ''Alice'', ''S2'' \<mapsto> ''Bob'']"

section \<open>Invariants of the coalescing loop\<close>

text \<open>
  The loop keeps the words seen so far: those of the turns already emitted followed by
  those of the text buffer. The buffer is empty before the first segment and ends in a
  space afterwards, so appending the next text never glues two words together.
\<close>

definition turn_words :: "turn list \<Rightarrow> string list" where
  "turn_words ts = concat (map (\<lambda>t. split_ws (turn_text t)) ts)"

definition state_words :: "conv_state \<Rightarrow> string list" where
  "state_words st =
     (case st of (conversation, current_speaker, current_text) \<Rightarrow>
        turn_words conversation @ split_ws current_text)"

definition text_ok :: "conv_state \<Rightarrow> bool" where
  "text_ok st =
     (case st of (conversation, current_speaker, current_text) \<Rightarrow>
        (case current_speaker of
           None \<Rightarrow> current_text = []
         | Some cs \<Rightarrow> current_text \<noteq> [] \<and> last current_text = CHR '' ''))"

text \<open>
  The loop keeps the speakers of the emitted turns, followed by the current speaker, free
  of equal neighbours; before the first segment nothing has been emitted.
\<close>

definition speaker_ok :: "conv_state \<Rightarrow> bool" where
  "speaker_ok st =
     (case st of (conversation, current_speaker, current_text) \<Rightarrow>
        (case current_speaker of
           None \<Rightarrow> conversation = []
         | Some cs \<Rightarrow> distinct_adj (map turn_speaker conversation @ [cs])))"

section \<open>Properties of the string functions\<close>

lemma isspace_space: "isspace CHR '' ''"
  by (simp add: isspace_def)

lemma split_ws_Nil: "split_ws [] = []"
  by (simp add: split_ws_def)

lemma split_acc_sep:
  "isspace c \<Longrightarrow> split_acc w (xs @ c # ys) = split_acc w xs @ split_ws ys"
  by (induction xs arbitrary: w) (auto simp: split_ws_def)

lemma split_ws_sep: "split_ws (xs @ CHR '' '' # ys) = split_ws xs @ split_ws ys"
  using split_acc_sep [OF isspace_space, of "[]" xs ys] by (simp add: split_ws_def)

lemma split_ws_app_space: "split_ws (xs @ '' '') = split_ws xs"
  using split_ws_sep [of xs "[]"] by (simp add: split_ws_def)

lemma split_ws_after_space:
  assumes "xs \<noteq> []" and "last xs = CHR '' ''"
  shows "split_ws (xs @ ys) = split_ws xs @ split_ws ys"
proof -
  from assms have xs: "xs = butlast xs @ [CHR '' '']"
    by (metis append_butlast_last_id)
  have "split_ws (butlast xs @ CHR '' '' # ys) = split_ws (butlast xs) @ split_ws ys"
    by (rule split_ws_sep)
  moreover have "split_ws (butlast xs @ [CHR '' '']) = split_ws (butlast xs)"
    using split_ws_app_space [of "butlast xs"] by simp
  ultimately show ?thesis
    using xs by (metis append_Cons append_Nil append_assoc)
qed

lemma split_acc_spaces:
  "\<forall>c \<in> set ws. isspace c \<Longrightarrow> split_acc w ws = (if w = [] then [] else [w])"
  by (induction ws arbitrary: w) auto

lemma split_acc_trailing:
  "\<forall>c \<in> set ws. isspace c \<Longrightarrow> split_acc w (xs @ ws) = split_acc w xs"
  by (induction xs arbitrary: w) (auto simp: split_acc_spaces)

lemma split_ws_lstrip: "split_ws (lstrip s) = split_ws s"
  by (induction s) (auto simp: split_ws_def lstrip_def)

lemma split_ws_rstrip: "split_ws (rstrip s) = split_ws s"
proof -
  have "s = rstrip s @ rev (takeWhile isspace (rev s))"
    unfolding rstrip_def by (metis rev_append rev_rev_ident takeWhile_dropWhile_id)
  moreover have "\<forall>c \<in> set (rev (takeWhile isspace (rev s))). isspace c"
    by (auto dest: set_takeWhileD)
  ultimately show ?thesis
    unfolding split_ws_def by (metis split_acc_trailing)
qed

lemma split_ws_strip: "split_ws (strip s) = split_ws s"
  by (simp add: strip_def split_ws_lstrip split_ws_rstrip)

lemma split_ws_join_space: "split_ws (join '' '' xs) = concat (map split_ws xs)"
  by (induction "'' ''" xs rule: join.induct) (simp_all add: split_ws_sep split_ws_Nil)

section \<open>Turn coalescing\<close>

subsection \<open>The words of the turns\<close>

lemma conv_step_words:
  "text_ok st \<Longrightarrow>
     state_words (conv_step m st seg) = state_words st @ split_ws (seg_text seg)
     \<and> text_ok (conv_step m st seg)"
  by (cases st)
     (auto simp: conv_step_def state_words_def text_ok_def turn_words_def Let_def
        split_ws_strip split_ws_app_space split_ws_after_space split_ws_Nil
        split: option.splits)

lemma conv_loop_words:
  "text_ok st \<Longrightarrow>
     state_words (conv_loop m segs st)
       = state_words st @ concat (map (\<lambda>s. split_ws (seg_text s)) segs)
     \<and> text_ok (conv_loop m segs st)"
  by (induction segs arbitrary: st) (simp_all add: conv_step_words)

lemma conv_finish_words: "text_ok st \<Longrightarrow> turn_words (conv_finish st) = state_words st"
  by (cases st)
     (auto simp: conv_finish_def state_words_def text_ok_def turn_words_def split_ws_strip
        split_ws_Nil split: option.splits)

lemma save_conversation_words:
  "turn_words (save_conversation m segs) = concat (map (\<lambda>s. split_ws (seg_text s)) segs)"
proof -
  have ok: "text_ok ([], None, [])"
    by (simp add: text_ok_def)
  have "turn_words (save_conversation m segs) = state_words (conv_loop m segs ([], None, []))"
    unfolding save_conversation_def using conv_loop_words [OF ok] by (simp add: conv_finish_words)
  also have "\<dots> = state_words ([], None, []) @ concat (map (\<lambda>s. split_ws (seg_text s)) segs)"
    using conv_loop_words [OF ok] by simp
  finally show ?thesis
    by (simp add: state_words_def turn_words_def split_ws_Nil)
qed

text \<open>
  C4. For every segment list and every speaker map, the words of the space-joined turn
  texts are the words of the space-joined trimmed segment texts, in the same order: the
  two strings are equal up to whitespace, and no word is dropped or duplicated.
\<close>

theorem turns_keep_all_words:
  "split_ws (join '' '' (map turn_text (save_conversation speaker_mapping segments)))
     = split_ws (join '' '' (map (\<lambda>s. strip (seg_text s)) segments))"
  using save_conversation_words [of speaker_mapping segments]
  by (simp add: split_ws_join_space turn_words_def split_ws_strip comp_def)

text \<open>
  C5. The three segments Hi / there / Bye, spoken by S1, S1 and S2, with the speaker map
  S1 to Alice and S2 to Bob, coalesce into exactly two turns: Alice saying "Hi there" and
  Bob saying "Bye".
\<close>

theorem coalesce_scenario:
  "save_conversation [''S1'' \<mapsto> ''Alice'', ''S2'' \<mapsto> ''Bob'']
     [\<lparr>seg_start = 0.0, seg_end = 1.0, seg_text = ''Hi'', seg_speaker = Some ''S1''\<rparr>,
      \<lparr>seg_start = 1.0, seg_end = 2.0, seg_text = ''there'', seg_speaker = Some ''S1''\<rparr>,
      \<lparr>seg_start = 2.0, seg_end = 3.0, seg_text = ''Bye'', seg_speaker = Some ''S2''\<rparr>]
   = [\<lparr>turn_speaker = ''Alice'', turn_text = ''Hi there''\<rparr>,
      \<lparr>turn_speaker = ''Bob'', turn_text = ''Bye''\<rparr>]"
  by (simp add: save_conversation_def conv_finish_def conv_step_def mapped_speaker_def
        get_speaker_def strip_def lstrip_def rstrip_def isspace_def)

subsection \<open>Neighbouring turns\<close>

lemma conv_step_speaker_ok: "speaker_ok st \<Longrightarrow> speaker_ok (conv_step m st seg)"
  by (cases st)
     (auto simp: conv_step_def speaker_ok_def Let_def distinct_adj_append_iff
        split: option.splits)

lemma conv_loop_speaker_ok: "speaker_ok st \<Longrightarrow> speaker_ok (conv_loop m segs st)"
  by (induction segs arbitrary: st) (simp_all add: conv_step_speaker_ok)

lemma conv_finish_speaker_ok:
  "speaker_ok st \<Longrightarrow> distinct_adj (map turn_speaker (conv_finish st))"
  by (cases st)
     (auto simp: conv_finish_def speaker_ok_def distinct_adj_append_iff split: option.splits)

lemma save_conversation_distinct_adj:
  "distinct_adj (map turn_speaker (save_conversation m segs))"
  unfolding save_conversation_def
  by (rule conv_finish_speaker_ok, rule conv_loop_speaker_ok) (simp add: speaker_ok_def)

lemma conv_step_v4_eq: "conv_step_v4 st seg = conv_step Map.empty st seg"
  by (simp add: conv_step_v4_def conv_step_def mapped_speaker_def)

lemma conv_loop_v4_eq: "conv_loop_v4 segs st = conv_loop Map.empty segs st"
  by (induction segs arbitrary: st) (simp_all add: conv_step_v4_eq)

lemma save_conversation_v4_eq: "save_conversation_v4 segs = save_conversation Map.empty segs"
  by (simp add: save_conversation_v4_def save_conversation_def conv_loop_v4_eq)

text \<open>
  C10. For every segment list and speaker map, no two neighbouring turns of the coalesced
  conversation have the same speaker; the same holds for the earlier version of the
  function, which has no speaker map.
\<close>

theorem no_equal_neighbour_speakers:
  "distinct_adj (map turn_speaker (save_conversation speaker_mapping segments))
   \<and> distinct_adj (map turn_speaker (save_conversation_v4 segments))"
  by (simp add: save_conversation_distinct_adj save_conversation_v4_eq)

section \<open>Metadata resolution\<close>

lemma search_miss:
  "is_miss (fs l) \<Longrightarrow>
     search_locations fs ((l, d) # rest) seen = search_locations fs rest (seen @ [d])"
  by (auto simp: is_miss_def split: file_state.splits)

lemma search_valid:
  "fs l = Content md \<Longrightarrow> valid_record (Content md) \<Longrightarrow>
     search_locations fs ((l, d) # rest) seen = (Inr (Some (md, l)), seen @ [d])"
  by (auto simp: valid_record_def py_contains_def py_getitem_def map_of_eq_None_iff
        split: json.splits option.splits)

lemma search_abort:
  "\<not> is_miss (fs l) \<Longrightarrow> \<not> valid_record (fs l) \<Longrightarrow>
     \<exists>e. search_locations fs ((l, d) # rest) seen = (Inl e, seen @ [d])"
  by (auto simp: is_miss_def valid_record_def py_contains_def py_getitem_def
        split: file_state.splits json.splits option.splits sum.splits bool.splits)

lemma search_prefix:
  "list_all (\<lambda>(l, d). is_miss (fs l)) pre \<Longrightarrow>
     search_locations fs (pre @ rest) seen = search_locations fs rest (seen @ map snd pre)"
proof (induction pre arbitrary: seen)
  case Nil
  then show ?case by simp
next
  case (Cons a pre)
  obtain l d where a: "a = (l, d)" by (cases a)
  from Cons.prems a have "is_miss (fs l)" and rest: "list_all (\<lambda>(l, d). is_miss (fs l)) pre"
    by simp_all
  then have "search_locations fs ((a # pre) @ rest) seen
      = search_locations fs (pre @ rest) (seen @ [d])"
    using search_miss [of fs l d "pre @ rest" seen] a by simp
  also have "\<dots> = search_locations fs rest ((seen @ [d]) @ map snd pre)"
    by (rule Cons.IH [OF rest])
  finally show ?case
    using a by simp
qed

text \<open>
  The search stops at the first candidate that is not a miss; what it returns depends on
  that candidate alone.
\<close>

lemma load_metadata_first_decisive:
  "load_metadata fs wav_file =
     (case dropWhile (\<lambda>(l, d). is_miss (fs l)) (metadata_locations wav_file) of
        [] \<Rightarrow> ((None, []), map snd (metadata_locations wav_file))
      | (location, desc) # rest \<Rightarrow>
          ((case fs location of
              Content md \<Rightarrow>
                if valid_record (Content md) then (Some md, path_str location) else (None, [])
            | _ \<Rightarrow> (None, [])),
           map snd (takeWhile (\<lambda>(l, d). is_miss (fs l)) (metadata_locations wav_file))
             @ [desc]))"
proof -
  let ?P = "\<lambda>(l, d). is_miss (fs l)"
  let ?cs = "metadata_locations wav_file"
  have pre: "list_all ?P (takeWhile ?P ?cs)"
    by (simp add: list_all_iff) (auto dest: set_takeWhileD)
  have split: "search_locations fs ?cs [] =
      search_locations fs (dropWhile ?P ?cs) (map snd (takeWhile ?P ?cs))"
    using search_prefix [OF pre, of "dropWhile ?P ?cs" "[]"] by simp
  show ?thesis
  proof (cases "dropWhile ?P ?cs")
    case Nil
    then have tw: "takeWhile ?P ?cs = ?cs"
      by (metis append_Nil2 takeWhile_dropWhile_id)
    have "search_locations fs ?cs [] = search_locations fs [] (map snd ?cs)"
      using split by (simp only: Nil tw)
    then have "load_metadata fs wav_file = ((None, []), map snd ?cs)"
      by (simp add: load_metadata_def)
    then show ?thesis
      by (simp only: Nil list.case)
  next
    case (Cons a rest)
    obtain l d where a: "a = (l, d)" by (cases a)
    have nm: "\<not> is_miss (fs l)"
      using Cons a hd_dropWhile [of ?P ?cs] by auto
    have run: "search_locations fs ?cs [] =
        search_locations fs ((l, d) # rest) (map snd (takeWhile ?P ?cs))"
      using split by (simp only: Cons a)
    show ?thesis
    proof (cases "valid_record (fs l)")
      case True
      then obtain md where md: "fs l = Content md"
        by (auto simp: valid_record_def split: file_state.splits)
      with True have "search_locations fs ?cs [] =
          (Inr (Some (md, l)), map snd (takeWhile ?P ?cs) @ [d])"
        using run search_valid [of fs l md d rest] by simp
      then have lm: "load_metadata fs wav_file =
          ((Some md, path_str l), map snd (takeWhile ?P ?cs) @ [d])"
        by (simp add: load_metadata_def)
      have rhs: "(case fs l of
                    Content md \<Rightarrow>
                      if valid_record (Content md) then (Some md, path_str l) else (None, [])
                  | _ \<Rightarrow> (None, [])) = (Some md, path_str l)"
        using True md by simp
      show ?thesis
        by (simp only: Cons a list.case prod.case lm rhs)
    next
      case False
      from search_abort [of fs l d rest "map snd (takeWhile ?P ?cs)"] nm False obtain e where
        "search_locations fs ((l, d) # rest) (map snd (takeWhile ?P ?cs))
           = (Inl e, map snd (takeWhile ?P ?cs) @ [d])"
        by blast
      with run have lm: "load_metadata fs wav_file =
          ((None, []), map snd (takeWhile ?P ?cs) @ [d])"
        by (simp add: load_metadata_def)
      have rhs: "(case fs l of
                    Content md \<Rightarrow>
                      if valid_record (Content md) then (Some md, path_str l) else (None, [])
                  | _ \<Rightarrow> (None, [])) = (None, [])"
        using False by (cases "fs l") simp_all
      show ?thesis
        by (simp only: Cons a list.case prod.case lm rhs)
    qed
  qed
qed

lemma example_wav_locations:
  "metadata_locations example_wav =
     [([''data'', ''rec'', ''a_metadata.json''], ''parent directory''),
      ([''workspace'', ''audio'', ''a_metadata.json''], ''workspace root''),
      ([''workspace'', ''audio'', ''audio-only'', ''a'', ''a_metadata.json''],
       ''output directory'')]"
  by (simp add: metadata_locations_def example_wav_def path_stem_def path_name_def rfind_def
        joinpath_def path_parent_def workspace_dir_def output_base_dir_def Let_def)

section \<open>The pipeline of one recording\<close>

text \<open>Running the statements one at a time, from a state in which nothing was raised.\<close>

lemma run_invoke:
  "raised s = None \<Longrightarrow> run_steps (invoke gw c # fs) s =
     (case gw c of
        None \<Rightarrow> run_steps fs (s\<lparr>calls := calls s @ [(c, resident s)]\<rparr>)
      | Some e \<Rightarrow> s\<lparr>calls := calls s @ [(c, resident s)], raised := Some e\<rparr>)"
  by (cases s) (simp add: invoke_def Let_def split: option.splits)

lemma run_assign:
  "raised s = None \<Longrightarrow> run_steps (assign h # fs) s =
     run_steps fs (s\<lparr>resident := insert h (resident s)\<rparr>)"
  by (simp add: assign_def Let_def)

lemma run_del:
  "raised s = None \<Longrightarrow> run_steps (del h # fs) s =
     run_steps fs (s\<lparr>resident := resident s - {h}\<rparr>)"
  by (simp add: del_def Let_def)

lemmas run_simps = run_invoke run_assign run_del

lemma try_body_calls:
  "list_all (\<lambda>(c, r).
       (c = LoadAlignModel \<longrightarrow> r = {AsrModel})
     \<and> (c = Align \<longrightarrow> r = {AsrModel, AlignModel})
     \<and> (c \<in> {GcCollect, EmptyCache, DiarizationPipeline} \<longrightarrow> r = {})
     \<and> (DiarizeModel \<in> r \<longrightarrow> r = {DiarizeModel})
     \<and> card r \<le> 2
     \<and> (\<forall>a b. c = Diarize a b \<longrightarrow> a = sc \<and> b = sc))
     (calls (try_body gw sc out))"
  unfolding try_body_def
  by (auto simp add: run_simps simp del: run_steps.simps(2) split: option.splits)

lemma try_body_raised:
  "raised (try_body gw sc out) = Some e \<Longrightarrow> \<exists>c. gw c = Some e"
  unfolding try_body_def
  by (auto simp add: run_simps simp del: run_steps.simps(2) split: option.splits)

section \<open>Exceptions before the pipeline\<close>

lemma py_contains_exn: "py_contains k v = Inl e \<Longrightarrow> is_Exception e"
  by (auto simp: py_contains_def is_Exception_def split: json.splits)

lemma py_getitem_exn: "py_getitem v k = Inl e \<Longrightarrow> is_Exception e"
  by (auto simp: py_getitem_def is_Exception_def split: json.splits option.splits)

lemma py_iter_exn: "py_iter v = Inl e \<Longrightarrow> is_Exception e"
  by (auto simp: py_iter_def is_Exception_def split: json.splits)

lemma bind_exn_Inl:
  "bind_exn x f = Inl e \<Longrightarrow> x = Inl e \<or> (\<exists>v. x = Inr v \<and> f v = Inl e)"
  by (cases x) (simp_all add: bind_exn_def)

lemma bind_exn_exn:
  assumes "bind_exn x f = Inl e"
    and "x = Inl e \<Longrightarrow> is_Exception e"
    and "\<And>v. x = Inr v \<Longrightarrow> f v = Inl e \<Longrightarrow> is_Exception e"
  shows "is_Exception e"
  using assms by (cases x) (simp_all add: bind_exn_def)

lemma print_attendees_exn: "print_attendees xs = Inl e \<Longrightarrow> is_Exception e"
  by (induction xs) (auto dest!: bind_exn_Inl dest: py_getitem_exn)

lemma choose_speaker_count_exn:
  assumes "choose_speaker_count metadata = Inl e"
  shows "is_Exception e"
proof (cases metadata)
  case None
  with assms show ?thesis
    by (simp add: choose_speaker_count_def)
next
  case (Some md)
  show ?thesis
  proof (cases "py_truthy md")
    case False
    with Some assms show ?thesis
      by (simp add: choose_speaker_count_def)
  next
    case True
    with Some assms have run:
      "bind_exn (py_contains ''speaker_count'' md) (\<lambda>has_count.
         if has_count then
           bind_exn (py_getitem md ''speaker_count'') (\<lambda>speaker_count.
           bind_exn (py_contains ''attendees'' md) (\<lambda>has_attendees.
             if has_attendees then
               bind_exn (py_getitem md ''attendees'') (\<lambda>attendees.
               bind_exn (py_iter attendees) (\<lambda>xs.
               bind_exn (print_attendees xs) (\<lambda>u. Inr speaker_count)))
             else Inr speaker_count))
         else Inr (JInt 2)) = Inl e"
      by (simp add: choose_speaker_count_def)
    show ?thesis
      using run
      apply (rule bind_exn_exn)
       apply (erule py_contains_exn)
      apply (simp split: if_splits)
      apply (erule bind_exn_exn)
       apply (erule py_getitem_exn)
      apply (erule bind_exn_exn)
       apply (erule py_contains_exn)
      apply (simp split: if_splits)
      apply (erule bind_exn_exn)
       apply (erule py_getitem_exn)
      apply (erule bind_exn_exn)
       apply (erule py_iter_exn)
      apply (erule bind_exn_exn)
       apply (erule print_attendees_exn)
      apply simp
      done
  qed
qed

lemma speaker_count_for_exn: "speaker_count_for fs p = Inl e \<Longrightarrow> is_Exception e"
  by (auto simp: speaker_count_for_def dest: choose_speaker_count_exn split: prod.splits)

section \<open>The batch\<close>

lemma process_audio_file_Inl:
  assumes gw: "\<And>c e. gw c = Some e \<Longrightarrow> is_Exception e"
    and "fst (process_audio_file fs gw p out) = Inl e"
  shows "is_Exception e"
  using assms(2)
  by (auto simp: process_audio_file_def Let_def split: sum.splits option.splits if_splits
        dest: speaker_count_for_exn try_body_raised gw)

lemma try_recording_Inl:
  assumes "\<And>c e. env_gateway env c = Some e \<Longrightarrow> is_Exception e"
    and "\<And>e. env_mkdir env = Some e \<Longrightarrow> is_Exception e"
    and "try_recording env w = Inl e"
  shows "is_Exception e"
  using assms(3) assms(2) process_audio_file_Inl [of "env_gateway env", OF assms(1)]
  by (auto simp: try_recording_def Let_def split: option.splits)

lemma files_loop_total:
  assumes gw: "\<And>i c e. env_gateway (world i) c = Some e \<Longrightarrow> is_Exception e"
    and mk: "\<And>i e. env_mkdir (world i) = Some e \<Longrightarrow> is_Exception e"
  shows "\<exists>st'. files_loop world i ws st = Inr st'
           \<and> attempted st' = attempted st @ ws
           \<and> successful st' = successful st + length (filter (succeeded world) (enumerate i ws))
           \<and> failed st' =
               failed st + length (filter (\<lambda>x. \<not> succeeded world x) (enumerate i ws))"
proof (induction ws arbitrary: i st)
  case Nil
  then show ?case by simp
next
  case (Cons w ws)
  show ?case
  proof (cases "try_recording (world i) w")
    case (Inl e)
    then have "is_Exception e"
      using try_recording_Inl [of "world i" w e] gw mk by blast
    with Inl Cons.IH [of "Suc i" "st\<lparr>attempted := attempted st @ [w], failed := Suc (failed st)\<rparr>"]
    show ?thesis
      by (auto simp: Let_def succeeded_def)
  next
    case (Inr b)
    with Cons.IH [of "Suc i" "st\<lparr>attempted := attempted st @ [w], failed := Suc (failed st)\<rparr>"]
      Cons.IH [of "Suc i"
        "st\<lparr>attempted := attempted st @ [w], successful := Suc (successful st)\<rparr>"]
    show ?thesis
      by (cases b) (auto simp: Let_def succeeded_def)
  qed
qed

section \<open>Claims about the text artifact\<close>

lemma write_segments_append:
  "write_segments m segs f = f @ concat (map (text_line m) segs)"
  by (induction segs arbitrary: f) simp_all

text \<open>
  Counterexample to C6 as stated: for the scenario segments the text file has three
  lines, one per segment, while the conversation has two turns; the file differs from the
  per-turn rendering.
\<close>

theorem text_format_not_per_turn:
  "save_text_format alice_bob hi_there_bye
     = ''Alice: Hi'' @ [CHR 0x0A] @ ''Alice: there'' @ [CHR 0x0A] @ ''Bob: Bye'' @ [CHR 0x0A]
   \<and> spec_turn_lines (save_conversation alice_bob hi_there_bye)
     = ''Alice: Hi there'' @ [CHR 0x0A] @ ''Bob: Bye'' @ [CHR 0x0A]
   \<and> save_text_format alice_bob hi_there_bye
     \<noteq> spec_turn_lines (save_conversation alice_bob hi_there_bye)"
  by (simp add: save_text_format_def text_line_def spec_turn_lines_def save_conversation_def
        conv_finish_def conv_step_def mapped_speaker_def get_speaker_def strip_def lstrip_def
        rstrip_def isspace_def alice_bob_def hi_there_bye_def)

text \<open>
  C6, amended. The text file holds exactly one line per segment, in segment order, each
  of the form \<open>"<speaker>: <text>\n"\<close> with the segment's mapped speaker (\<open>Unknown\<close> when
  the segment has none) and its trimmed text.
\<close>

theorem text_format_one_line_per_segment:
  "save_text_format speaker_mapping segments =
     concat (map (\<lambda>segment. mapped_speaker speaker_mapping segment @ '': ''
                    @ strip (seg_text segment) @ [CHR 0x0A]) segments)"
proof -
  have "text_line speaker_mapping =
      (\<lambda>segment. mapped_speaker speaker_mapping segment @ '': ''
                    @ strip (seg_text segment) @ [CHR 0x0A])"
    by (rule ext) (simp add: text_line_def Let_def)
  then show ?thesis
    by (simp add: save_text_format_def write_segments_append)
qed

section \<open>Claims about the output directory name\<close>

text \<open>
  Counterexample to C3 as stated: the stem has five parts, the branch that parses an
  event needs six, so nothing is parsed and the directory is not
  \<open>WeeklySync_2024-01-15\<close>.
\<close>

theorem weekly_sync_stem_not_parsed:
  "split_on CHR ''_'' ''AO_REC_WeeklySync_20240115_093000''
     = [''AO'', ''REC'', ''WeeklySync'', ''20240115'', ''093000'']
   \<and> parse_stem ''AO_REC_WeeklySync_20240115_093000'' \<noteq> Some (''WeeklySync'', ''2024-01-15'')
   \<and> dir_name ''AO_REC_WeeklySync_20240115_093000'' \<noteq> ''WeeklySync_2024-01-15''"
  by (simp add: parse_stem_def dir_name_def)

text \<open>
  C3, amended. The stem \<open>AO_REC_WeeklySync_20240115_093000\<close> has five underscore-separated
  parts, fewer than six: no event is parsed and the output directory name is the stem
  itself. The six-part stem \<open>AO_REC_Weekly_Sync_20240115_093000\<close> gives the title
  \<open>Weekly_Sync\<close>, the date \<open>2024-01-15\<close> and the directory name \<open>Weekly_Sync_2024-01-15\<close>.
\<close>

theorem dir_name_needs_six_parts:
  "parse_stem ''AO_REC_WeeklySync_20240115_093000'' = None
   \<and> dir_name ''AO_REC_WeeklySync_20240115_093000'' = ''AO_REC_WeeklySync_20240115_093000''
   \<and> parse_stem ''AO_REC_Weekly_Sync_20240115_093000'' = Some (''Weekly_Sync'', ''2024-01-15'')
   \<and> dir_name ''AO_REC_Weekly_Sync_20240115_093000'' = ''Weekly_Sync_2024-01-15''"
  by (simp add: parse_stem_def dir_name_def)

section \<open>Claims about metadata resolution\<close>

text \<open>
  Counterexample to C1 as stated: the sidecar next to the recording fails to parse and
  the one at the workspace root is a record with \<open>speaker_count\<close>. Resolution returns
  absent after examining the first candidate only, whereas a search that went on would
  return the workspace-root record.
\<close>

theorem parse_error_hides_later_record:
  "load_metadata broken_parent_fs example_wav = ((None, []), [''parent directory''])
   \<and> spec_resolve broken_parent_fs (metadata_locations example_wav)
       = (Some (JObj [(''speaker_count'', JInt 3)]), ''/workspace/audio/a_metadata.json'')"
  by (simp add: example_wav_locations load_metadata_def broken_parent_fs_def empty_fs_def
        valid_record_def path_str_def)

text \<open>
  C1, amended. Metadata resolution examines the candidate locations in the order parent
  directory, workspace root, output directory, and stops at the first candidate that is
  not a miss (a miss: the file does not exist, or it loads and does not contain
  \<open>speaker_count\<close>). If that candidate is a record with \<open>speaker_count\<close> it is returned
  with its location; otherwise (an I/O error, a JSON parse error, a value that is no
  record) the error is swallowed and resolution returns absent at once, the remaining
  candidates not being examined. When every candidate is a miss, resolution returns
  absent after examining all of them.
\<close>

theorem load_metadata_stops_at_first_decisive:
  "map snd (metadata_locations wav_file)
     = [''parent directory'', ''workspace root'', ''output directory'']
   \<and> load_metadata fs wav_file =
     (case dropWhile (\<lambda>(l, d). is_miss (fs l)) (metadata_locations wav_file) of
        [] \<Rightarrow> ((None, []), map snd (metadata_locations wav_file))
      | (location, desc) # rest \<Rightarrow>
          ((case fs location of
              Content md \<Rightarrow>
                if valid_record (Content md) then (Some md, path_str location) else (None, [])
            | _ \<Rightarrow> (None, [])),
           map snd (takeWhile (\<lambda>(l, d). is_miss (fs l)) (metadata_locations wav_file))
             @ [desc]))"
  using load_metadata_first_decisive [of fs wav_file]
  by (simp add: metadata_locations_def Let_def)

text \<open>
  C7. If the sidecar in the recording's parent directory is a record with
  \<open>speaker_count\<close>, resolution returns that record and its location, and the parent
  directory is the only candidate examined, whatever the workspace root and the output
  directory hold (a valid record at the workspace root included).
\<close>

theorem parent_directory_wins:
  assumes "fs (joinpath (path_parent wav_file) (path_stem wav_file @ ''_metadata.json''))
             = Content (JObj items)"
    and "''speaker_count'' \<in> fst ` set items"
  shows "load_metadata fs wav_file =
           ((Some (JObj items),
             path_str (joinpath (path_parent wav_file)
                         (path_stem wav_file @ ''_metadata.json''))),
            [''parent directory''])"
proof -
  from assms(2) have "valid_record (Content (JObj items))"
    by (simp add: valid_record_def)
  with assms(1) show ?thesis
    by (simp add: load_metadata_def metadata_locations_def Let_def search_valid
          del: search_locations.simps)
qed

text \<open>
  Witness for C7: records with \<open>speaker_count\<close> 3 next to the recording and 5 at the
  workspace root; the one with 3 is returned.
\<close>

theorem parent_directory_wins_witness:
  "load_metadata both_valid_fs example_wav =
     ((Some (JObj [(''speaker_count'', JInt 3)]), ''/data/rec/a_metadata.json''),
      [''parent directory''])"
  using parent_directory_wins [of both_valid_fs example_wav "[(''speaker_count'', JInt 3)]"]
  by (simp add: both_valid_fs_def empty_fs_def example_wav_def path_stem_def path_name_def
        rfind_def joinpath_def path_parent_def path_str_def Let_def)

lemma no_valid_record_gives_None:
  assumes "list_all (\<lambda>(l, d). \<not> valid_record (fs l)) (metadata_locations wav_file)"
  shows "fst (load_metadata fs wav_file) = (None, [])"
proof (cases "dropWhile (\<lambda>(l, d). is_miss (fs l)) (metadata_locations wav_file)")
  case Nil
  then show ?thesis
    by (simp only: load_metadata_first_decisive list.case fst_conv)
next
  case (Cons a rest)
  obtain l d where a: "a = (l, d)" by (cases a)
  have "(l, d) \<in> set (metadata_locations wav_file)"
    using Cons a by (metis list.set_intros(1) set_dropWhileD)
  with assms have "\<not> valid_record (fs l)"
    by (auto simp: list_all_iff)
  then have "(case fs l of
                Content md \<Rightarrow>
                  if valid_record (Content md) then (Some md, path_str l) else (None, [])
              | _ \<Rightarrow> (None, [])) = (None, [])"
    by (cases "fs l") simp_all
  then show ?thesis
    by (simp only: load_metadata_first_decisive Cons a list.case prod.case fst_conv)
qed

text \<open>
  C8. If none of the candidate locations holds a record with \<open>speaker_count\<close>,
  resolution returns absent, the speaker count chosen is the default 2, and every
  diarization call of the pipeline gets 2 as both its minimum and its maximum.
\<close>

theorem no_metadata_defaults_to_two:
  assumes "list_all (\<lambda>(l, d). \<not> valid_record (fs l)) (metadata_locations wav_file)"
  shows "fst (load_metadata fs wav_file) = (None, [])
       \<and> speaker_count_for fs wav_file = Inr (JInt 2)
       \<and> list_all (\<lambda>(c, r). \<forall>a b. c = Diarize a b \<longrightarrow> a = JInt 2 \<and> b = JInt 2)
           (snd (process_audio_file fs gw wav_file output_dir))"
proof -
  have none: "fst (load_metadata fs wav_file) = (None, [])"
    by (rule no_valid_record_gives_None [OF assms])
  then have sc: "speaker_count_for fs wav_file = Inr (JInt 2)"
    by (auto simp: speaker_count_for_def choose_speaker_count_def split: prod.splits)
  have "list_all (\<lambda>(c, r). \<forall>a b. c = Diarize a b \<longrightarrow> a = JInt 2 \<and> b = JInt 2)
          (calls (try_body gw (JInt 2) output_dir))"
    using try_body_calls [of "JInt 2" gw output_dir]
    by (rule list.pred_mono_strong) auto
  with sc have "list_all (\<lambda>(c, r). \<forall>a b. c = Diarize a b \<longrightarrow> a = JInt 2 \<and> b = JInt 2)
           (snd (process_audio_file fs gw wav_file output_dir))"
    by (simp add: process_audio_file_def Let_def split: option.splits)
  with none sc show ?thesis by simp
qed

text \<open>
  Witness for C8: no sidecar anywhere and models that never fail; the ninth call of the
  pipeline is the diarization, with 2 and 2.
\<close>

theorem no_metadata_defaults_to_two_witness:
  "fst (load_metadata empty_fs example_wav) = (None, [])
   \<and> speaker_count_for empty_fs example_wav = Inr (JInt 2)
   \<and> snd (process_audio_file empty_fs quiet_gateway example_wav [''out'']) ! 8
       = (Diarize (JInt 2) (JInt 2), {DiarizeModel})"
  using no_metadata_defaults_to_two [of empty_fs example_wav quiet_gateway "[''out'']"]
  by (auto simp add: example_wav_locations empty_fs_def valid_record_def process_audio_file_def
        quiet_gateway_def try_body_def invoke_def assign_def del_def Let_def)

section \<open>Claims about the resident models\<close>

text \<open>
  Counterexample to C2 as stated: in a run in which nothing fails, the fifth call is the
  alignment, and both the ASR model and the alignment model are resident while it runs.
\<close>

theorem two_models_resident_during_align:
  "\<not> one_model_at_a_time
       (snd (process_audio_file empty_fs quiet_gateway example_wav [''out'']))
   \<and> snd (process_audio_file empty_fs quiet_gateway example_wav [''out'']) ! 4
       = (Align, {AlignModel, AsrModel})"
  by (simp add: process_audio_file_def speaker_count_for_def load_metadata_def
        example_wav_locations empty_fs_def choose_speaker_count_def
        quiet_gateway_def try_body_def invoke_def assign_def del_def Let_def
        one_model_at_a_time_def)

text \<open>
  C2, amended. In the per-recording pipeline the ASR model and the alignment model are
  released together after the Align stage and before the diarization model is loaded:
  the ASR model is resident while the alignment model is loaded, both are resident
  while Align runs, no model is resident during garbage collection, cache emptying and
  the loading of the diarization model, the diarization model is never resident together
  with another model, and at no call are more than two models resident. This holds
  whichever calls fail.
\<close>

theorem models_resident_per_call:
  "list_all (\<lambda>(c, r).
       (c = LoadAlignModel \<longrightarrow> r = {AsrModel})
     \<and> (c = Align \<longrightarrow> r = {AsrModel, AlignModel})
     \<and> (c \<in> {GcCollect, EmptyCache, DiarizationPipeline} \<longrightarrow> r = {})
     \<and> (DiarizeModel \<in> r \<longrightarrow> r = {DiarizeModel})
     \<and> card r \<le> 2)
     (snd (process_audio_file fs gw audio_path output_dir))"
proof (cases "speaker_count_for fs audio_path")
  case (Inl e)
  then show ?thesis
    by (simp add: process_audio_file_def)
next
  case (Inr sc)
  have "list_all (\<lambda>(c, r).
       (c = LoadAlignModel \<longrightarrow> r = {AsrModel})
     \<and> (c = Align \<longrightarrow> r = {AsrModel, AlignModel})
     \<and> (c \<in> {GcCollect, EmptyCache, DiarizationPipeline} \<longrightarrow> r = {})
     \<and> (DiarizeModel \<in> r \<longrightarrow> r = {DiarizeModel})
     \<and> card r \<le> 2) (calls (try_body gw sc output_dir))"
    using try_body_calls [of sc gw output_dir]
    by (rule list.pred_mono_strong) auto
  with Inr show ?thesis
    by (simp add: process_audio_file_def Let_def split: option.splits)
qed

text \<open>
  Witness for C2: the models resident at each of the eleven calls of a run in which
  nothing fails.
\<close>

theorem models_resident_quiet_run:
  "map snd (snd (process_audio_file empty_fs quiet_gateway example_wav [''out'']))
     = [{}, {}, {AsrModel}, {AsrModel}, {AsrModel, AlignModel}, {}, {}, {},
        {DiarizeModel}, {DiarizeModel}, {DiarizeModel}]"
  using models_resident_per_call [of empty_fs quiet_gateway example_wav "[''out'']"]
  by (simp add: process_audio_file_def speaker_count_for_def load_metadata_def
        example_wav_locations empty_fs_def choose_speaker_count_def
        quiet_gateway_def try_body_def invoke_def assign_def del_def Let_def insert_commute)

section \<open>Claims about the batch\<close>

text \<open>
  C9. For every non-empty batch, when the failures of the recordings are exceptions of
  class \<open>Exception\<close>, the batch driver returns normally, every recording of the batch has
  been attempted in order, and each recording counts once: as successful when its
  processing returned \<open>True\<close>, as failed otherwise (it returned \<open>False\<close> or raised).
\<close>

theorem batch_isolation:
  assumes gw: "\<forall>i c e. env_gateway (world i) c = Some e \<longrightarrow> is_Exception e"
    and mk: "\<forall>i e. env_mkdir (world i) = Some e \<longrightarrow> is_Exception e"
    and ne: "wav_files \<noteq> []"
  shows "\<exists>st. process_all_files world wav_files = Inr (Some st)
           \<and> attempted st = wav_files
           \<and> successful st = length (filter (succeeded world) (enumerate 1 wav_files))
           \<and> failed st = length (filter (\<lambda>x. \<not> succeeded world x) (enumerate 1 wav_files))
           \<and> successful st + failed st = length wav_files"
proof -
  from files_loop_total [of world 1 wav_files "\<lparr>successful = 0, failed = 0, attempted = []\<rparr>"]
    gw mk
  obtain st where st:
    "files_loop world 1 wav_files \<lparr>successful = 0, failed = 0, attempted = []\<rparr> = Inr st"
    "attempted st = wav_files"
    "successful st = length (filter (succeeded world) (enumerate 1 wav_files))"
    "failed st = length (filter (\<lambda>x. \<not> succeeded world x) (enumerate 1 wav_files))"
    by auto
  have "successful st + failed st = length (enumerate 1 wav_files)"
    unfolding st(3,4) by (rule sum_length_filter_compl)
  with st ne show ?thesis
    by (auto simp: process_all_files_def bind_exn_def success_rate_def)
qed

lemma second_fails_outcome:
  "try_recording (second_fails i) [''workspace'', ''audio'', x] = Inr (i \<noteq> 2)"
  by (simp add: try_recording_def second_fails_def process_audio_file_def speaker_count_for_def
        load_metadata_def metadata_locations_def empty_fs_def choose_speaker_count_def
        quiet_gateway_def try_body_def invoke_def assign_def del_def Let_def is_Exception_def)

text \<open>
  Witness for C9: three recordings, the second failing at alignment; all three are
  attempted, two succeed and one fails.
\<close>

theorem batch_isolation_witness:
  "process_all_files second_fails three_wavs
     = Inr (Some \<lparr>successful = 2, failed = 1, attempted = three_wavs\<rparr>)"
proof -
  have "\<forall>i c e. env_gateway (second_fails i) c = Some e \<longrightarrow> is_Exception e"
    by (simp add: second_fails_def quiet_gateway_def is_Exception_def)
  moreover have "\<forall>i e. env_mkdir (second_fails i) = Some e \<longrightarrow> is_Exception e"
    by (simp add: second_fails_def)
  moreover have "three_wavs \<noteq> []"
    by (simp add: three_wavs_def)
  ultimately obtain st where st: "process_all_files second_fails three_wavs = Inr (Some st)"
    "attempted st = three_wavs"
    "successful st = length (filter (succeeded second_fails) (enumerate 1 three_wavs))"
    "failed st = length (filter (\<lambda>x. \<not> succeeded second_fails x) (enumerate 1 three_wavs))"
    using batch_isolation [of second_fails three_wavs] by blast
  have "successful st = 2" "failed st = 1"
    unfolding st(3,4)
    by (simp_all add: three_wavs_def enumerate_eq_zip succeeded_def second_fails_outcome upt_rec)
  with st(1,2) show ?thesis
    by (cases st) simp
qed

end
